theory Spec2Isabelle
  imports Main "HOL-Library.Multiset" "HOL-Library.FSet"
begin

section \<open>The frame codec of \<^verbatim>\<open>lib/geventirc/message.py\<close>\<close>

text \<open>
  Python 2 byte strings are modelled as \<^typ>\<open>string\<close> (lists of 8-bit characters); a
  string of length one, such as \<^verbatim>\<open>DELIM\<close>, is a \<^typ>\<open>char\<close> and is written \<open>[DELIM]\<close>
  where the source concatenates it.
\<close>

definition DELIM :: char where
  "DELIM = CHR 0x20"

definition CR :: char where
  "CR = CHR 0x0D"

definition NL :: char where
  "NL = CHR 0x0A"

definition NUL :: char where
  "NUL = CHR 0x00"

definition INVALID_CHARS :: "char list" where
  "INVALID_CHARS = [CR, NL, NUL]"

datatype error =
    ProtocolViolationError string
  | AssertionError string
  | TypeError string

text \<open>\<^verbatim>\<open>not any(c in param for c in INVALID_CHARS)\<close>\<close>

definition is_valid_param :: "string \<Rightarrow> bool" where
  "is_valid_param param = (\<not> list_ex (\<lambda>c. c \<in> set param) INVALID_CHARS)"

text \<open>\<^verbatim>\<open>s.startswith(p)\<close>\<close>

definition startswith :: "string \<Rightarrow> string \<Rightarrow> bool" where
  "startswith s p = (take (length p) s = p)"

text \<open>
  \<^verbatim>\<open>a, b = s.split(sep, 1)\<close> for a non-empty separator: the text before and after the
  first occurrence of \<open>sep\<close>. \<open>None\<close> stands for the \<^verbatim>\<open>ValueError\<close> of the unpacking when
  \<open>sep\<close> does not occur (the split then has one element), in which case no variable of the
  source is assigned.
\<close>

fun split_once :: "string \<Rightarrow> string \<Rightarrow> (string \<times> string) option" where
  "split_once sep [] = None"
| "split_once sep (c # cs) =
     (if take (length sep) (c # cs) = sep then Some ([], drop (length sep) (c # cs))
      else map_option (\<lambda>(a, b). (c # a, b)) (split_once sep cs))"

text \<open>\<^verbatim>\<open>s.split(d)\<close> for a separator of one character: never the empty list.\<close>

fun split_all :: "char \<Rightarrow> string \<Rightarrow> string list" where
  "split_all d [] = [[]]"
| "split_all d (c # cs) =
     (let r = split_all d cs
      in if c = d then [] # r else (c # hd r) # tl r)"

text \<open>\<^verbatim>\<open>sep.join(xs)\<close>\<close>

fun join :: "string \<Rightarrow> string list \<Rightarrow> string" where
  "join sep [] = []"
| "join sep [x] = x"
| "join sep (x # y # ys) = x @ sep @ join sep (y # ys)"

text \<open>
  \<^verbatim>\<open>irc_split(data)\<close> returns \<^verbatim>\<open>(prefix, command, params)\<close> or raises
  \<^verbatim>\<open>ProtocolViolationError\<close>. The error carries the buffer the message is formatted from.
\<close>

definition irc_split :: "string \<Rightarrow> error + (string \<times> string \<times> string list)" where
  "irc_split data =
     (let (prefix, buf) =
            (if startswith data '':'' then
               (case split_once [DELIM] (drop 1 data) of
                  Some (p, b) \<Rightarrow> (p, b)
                | None \<Rightarrow> ([], data))
             else ([], data))
      in case split_once [DELIM] buf of
           None \<Rightarrow> Inl (ProtocolViolationError buf)
         | Some (command, buf) \<Rightarrow>
             (let (buf, trailing) =
                    (case split_once (DELIM # '':'') buf of
                       Some (b, t) \<Rightarrow> (b, Some t)
                     | None \<Rightarrow> (buf, None));
                  params = split_all DELIM buf
              in Inr (prefix, command,
                      (case trailing of None \<Rightarrow> params | Some t \<Rightarrow> params @ [t]))))"

text \<open>
  The \<^verbatim>\<open>params\<close> argument of \<^verbatim>\<open>irc_unsplit\<close> is \<^verbatim>\<open>None\<close>, one string, or a list of strings.
\<close>

datatype pyparams = PNone | PStr string | PList "string list"

definition irc_unsplit :: "string option \<Rightarrow> string \<Rightarrow> pyparams \<Rightarrow> error + string" where
  "irc_unsplit prefix command params =
     (let buf = [];
          buf = (case prefix of None \<Rightarrow> buf | Some p \<Rightarrow> buf @ p @ [DELIM]);
          buf = buf @ command @ [DELIM]
      in case params of
           PNone \<Rightarrow> Inr buf
         | PStr s \<Rightarrow>
             if startswith s '':'' then Inl (AssertionError ''params must not start with :'')
             else Inr (buf @ '':'' @ s)
         | PList ps \<Rightarrow>
             if ps = [] then Inr buf
             else
               (let rparams = butlast ps;
                    trailing = last ps;
                    buf = (if rparams \<noteq> [] then buf @ join [DELIM] rparams @ [DELIM] else buf);
                    buf = (if trailing \<noteq> [] then buf @ '':'' @ trailing else buf)
                in Inr buf))"

record message =
  prefix :: "string option"
  command :: string
  params :: pyparams

text \<open>\<^verbatim>\<open>Message.decode\<close>: the prefix of a decoded message is always a string.\<close>

definition decode :: "string \<Rightarrow> error + message" where
  "decode data =
     (case irc_split data of
        Inl e \<Rightarrow> Inl e
      | Inr (p, c, ps) \<Rightarrow> Inr \<lparr>prefix = Some p, command = c, params = PList ps\<rparr>)"

text \<open>\<^verbatim>\<open>Message.encode\<close>\<close>

definition encode :: "message \<Rightarrow> error + string" where
  "encode m =
     (case irc_unsplit (prefix m) (command m) (params m) of
        Inl e \<Rightarrow> Inl e
      | Inr buf \<Rightarrow> Inr (buf @ [CR, NL]))"


section \<open>The extended-message codec of \<^verbatim>\<open>lib/geventirc/message.py\<close>\<close>

definition X_DELIM :: char where
  "X_DELIM = CHR 0x01"

definition X_QUOTE :: char where
  "X_QUOTE = CHR 0x86"

definition M_QUOTE :: char where
  "M_QUOTE = CHR 0x10"

text \<open>
  The quote tables are dictionaries from one-character strings to two-character strings,
  kept as association lists; the dequote tables are built from them by swapping every item,
  as the dictionary comprehensions of the source do.
\<close>

definition low_level_quote_table :: "(string \<times> string) list" where
  "low_level_quote_table =
     [([NUL], [M_QUOTE, CHR ''0'']),
      ([NL], [M_QUOTE, CHR ''n'']),
      ([CR], [M_QUOTE, CHR ''r'']),
      ([M_QUOTE], [M_QUOTE, M_QUOTE])]"

definition ctcp_quote_table :: "(string \<times> string) list" where
  "ctcp_quote_table =
     [([X_DELIM], [X_QUOTE, CHR ''a'']),
      ([X_QUOTE], [X_QUOTE, X_QUOTE])]"

definition invert_table :: "(string \<times> string) list \<Rightarrow> (string \<times> string) list" where
  "invert_table table = map (\<lambda>(k, v). (v, k)) table"

definition low_level_dequote_table :: "(string \<times> string) list" where
  "low_level_dequote_table = invert_table low_level_quote_table"

definition ctcp_dequote_table :: "(string \<times> string) list" where
  "ctcp_dequote_table = invert_table ctcp_quote_table"

text \<open>\<^verbatim>\<open>string[i:j]\<close> for \<open>0 \<le> i\<close>, \<open>0 \<le> j\<close>\<close>

definition slice :: "string \<Rightarrow> nat \<Rightarrow> nat \<Rightarrow> string" where
  "slice s i j = take (j - i) (drop i s)"

text \<open>
  The loop of \<^verbatim>\<open>_quote\<close> over \<^verbatim>\<open>enumerate(string)\<close>: \<open>pos\<close> is the index of the next
  character, the pair is \<^verbatim>\<open>(cursor, buf)\<close>. The character at index 0 is skipped.
\<close>

fun quote_loop ::
  "(string \<times> string) list \<Rightarrow> string \<Rightarrow> nat \<Rightarrow> string \<Rightarrow> nat \<times> string \<Rightarrow> nat \<times> string" where
  "quote_loop table string pos [] (cursor, buf) = (cursor, buf)"
| "quote_loop table string pos (char # rest) (cursor, buf) =
     (if pos = 0 then quote_loop table string (pos + 1) rest (cursor, buf)
      else
        (case map_of table [char] of
           Some q \<Rightarrow>
             quote_loop table string (pos + 1) rest
               (pos + 1, buf @ slice string cursor pos @ q)
         | None \<Rightarrow> quote_loop table string (pos + 1) rest (cursor, buf)))"

definition quote :: "string \<Rightarrow> (string \<times> string) list \<Rightarrow> string" where
  "quote string table =
     (let (cursor, buf) = quote_loop table string 0 string (0, [])
      in buf @ drop cursor string)"

text \<open>
  The loop of \<^verbatim>\<open>_dequote\<close>: the triple is \<^verbatim>\<open>(cursor, buf, last_char)\<close>, where
  \<^verbatim>\<open>last_char\<close> is the empty string before the first character and a string of one
  character afterwards.
\<close>

fun dequote_loop ::
  "(string \<times> string) list \<Rightarrow> string \<Rightarrow> nat \<Rightarrow> string \<Rightarrow> nat \<times> string \<times> string
     \<Rightarrow> nat \<times> string \<times> string" where
  "dequote_loop table string pos [] (cursor, buf, last_char) = (cursor, buf, last_char)"
| "dequote_loop table string pos (char # rest) (cursor, buf, last_char) =
     (if pos = 0 then dequote_loop table string (pos + 1) rest (cursor, buf, [char])
      else
        (case map_of table (last_char @ [char]) of
           Some k \<Rightarrow>
             dequote_loop table string (pos + 1) rest
               (pos + 1, buf @ slice string cursor pos @ k, [char])
         | None \<Rightarrow> dequote_loop table string (pos + 1) rest (cursor, buf, [char])))"

definition dequote :: "string \<Rightarrow> (string \<times> string) list \<Rightarrow> string" where
  "dequote string table =
     (let (cursor, buf, last_char) = dequote_loop table string 0 string (0, [], [])
      in buf @ drop cursor string)"

definition low_level_quote :: "string \<Rightarrow> string" where
  "low_level_quote string = quote string low_level_quote_table"

definition low_level_dequote :: "string \<Rightarrow> string" where
  "low_level_dequote string = dequote string low_level_dequote_table"

definition ctcp_quote :: "string \<Rightarrow> string" where
  "ctcp_quote string = quote string ctcp_quote_table"

definition ctcp_dequote :: "string \<Rightarrow> string" where
  "ctcp_dequote string = dequote string ctcp_dequote_table"

text \<open>
  The \<^verbatim>\<open>data\<close> of an extended message is \<^verbatim>\<open>None\<close>, a string, or a sequence of items that
  \<^verbatim>\<open>encode\<close> joins with \<^verbatim>\<open>DELIM\<close> (the items are given by their \<^verbatim>\<open>str\<close>).
\<close>

datatype ctcp_data = DNone | DStr string | DSeq "string list"

record ctcp_message = message +
  ctcp_params :: "(string \<times> ctcp_data) list"

text \<open>
  The \<^verbatim>\<open>while messages\<close> loop of \<^verbatim>\<open>CTCPMessage.decode\<close>. The source reverses the list and
  pops from its end, so the segments are taken in their order in the line: the argument is
  that stack with its top first. The pair is
  \<^verbatim>\<open>(extended_messages, normal_messages)\<close>, \<open>is_odd\<close> is the flag \<^verbatim>\<open>odd\<close>;
  \<^verbatim>\<open>filter(None, xs)\<close> keeps the non-empty strings.
\<close>

fun ctcp_decode_loop ::
  "string list \<Rightarrow> bool \<Rightarrow> (string \<times> ctcp_data) list \<times> string list
     \<Rightarrow> (string \<times> ctcp_data) list \<times> string list" where
  "ctcp_decode_loop [] is_odd (extended_messages, normal_messages) =
     (extended_messages, normal_messages)"
| "ctcp_decode_loop (message # messages) is_odd (extended_messages, normal_messages) =
     ctcp_decode_loop messages (\<not> is_odd)
       (if is_odd then
          (if message \<noteq> [] then
             (let ctcp_decoded = ctcp_dequote message;
                  (tag, data) =
                    (case split_once [DELIM] ctcp_decoded of
                       None \<Rightarrow> (ctcp_decoded, DNone)
                     | Some (t, d) \<Rightarrow> (t, DStr d))
              in (extended_messages @ [(tag, data)], normal_messages))
           else (extended_messages, normal_messages))
        else
          (if message \<noteq> [] then
             (extended_messages,
              normal_messages @ filter (\<lambda>w. w \<noteq> []) (split_all DELIM message))
           else (extended_messages, normal_messages)))"

text \<open>\<^verbatim>\<open>CTCPMessage.decode\<close>\<close>

definition ctcp_decode :: "string \<Rightarrow> error + ctcp_message" where
  "ctcp_decode data =
     (case irc_split data of
        Inl e \<Rightarrow> Inl e
      | Inr (p, c, ps) \<Rightarrow>
          (let (extended_messages, normal_messages) =
                 (if ps \<noteq> [] then
                    (let joined = join [DELIM] ps;
                         decoded = low_level_dequote joined;
                         messages = split_all X_DELIM decoded
                     in ctcp_decode_loop messages False ([], []))
                  else ([], []))
           in Inr \<lparr>prefix = Some p, command = c, params = PList normal_messages,
                   ctcp_params = extended_messages\<rparr>))"

text \<open>The string \<^verbatim>\<open>m\<close> built for one \<^verbatim>\<open>(tag, data)\<close> in \<^verbatim>\<open>CTCPMessage.encode\<close>.\<close>

fun ctcp_body :: "string \<times> ctcp_data \<Rightarrow> string" where
  "ctcp_body (tag, DNone) = tag"
| "ctcp_body (tag, DStr d) = (if d \<noteq> [] then tag @ [DELIM] @ d else tag)"
| "ctcp_body (tag, DSeq ds) = (if ds \<noteq> [] then tag @ [DELIM] @ join [DELIM] ds else tag)"

definition ctcp_buf :: "(string \<times> ctcp_data) list \<Rightarrow> string" where
  "ctcp_buf ps = foldl (\<lambda>buf p. buf @ [X_DELIM] @ ctcp_quote (ctcp_body p) @ [X_DELIM]) [] ps"

text \<open>
  \<^verbatim>\<open>CTCPMessage.encode\<close>: \<^verbatim>\<open>self.params + [...]\<close> is a \<^verbatim>\<open>TypeError\<close> unless
  \<^verbatim>\<open>self.params\<close> is a list.
\<close>

definition ctcp_encode :: "ctcp_message \<Rightarrow> error + string" where
  "ctcp_encode m =
     (let buf = ctcp_buf (ctcp_params m)
      in case params m of
           PList ps \<Rightarrow>
             (case irc_unsplit (prefix m) (command m) (PList (ps @ [low_level_quote buf])) of
                Inl e \<Rightarrow> Inl e
              | Inr line \<Rightarrow> Inr (line @ [CR, NL]))
         | _ \<Rightarrow> Inl (TypeError ''can only concatenate list to list''))"


section \<open>The identity state and the shutdown of \<^verbatim>\<open>girc/client.py\<close>\<close>

text \<open>
  A raised object: \<open>Exception\<close> is an instance of Python's \<^verbatim>\<open>Exception\<close>, which
  \<^verbatim>\<open>except Exception\<close> catches; \<open>BaseException\<close> is any other raised object (gevent's
  \<^verbatim>\<open>GreenletExit\<close>, \<^verbatim>\<open>KeyboardInterrupt\<close>), which it does not catch.
\<close>

datatype raised = Exception string | BaseException string

fun is_Exception :: "raised \<Rightarrow> bool" where
  "is_Exception (Exception _) = True"
| "is_Exception (BaseException _) = False"

type_synonym callback = nat
type_synonym greenlet = nat
type_synonym handler = nat

text \<open>The \<^verbatim>\<open>client\<close> attribute of a channel or user: this client, or \<^verbatim>\<open>None\<close>.\<close>

datatype backref = ThisClient | NoClient

text \<open>Calls that leave the client: \<^verbatim>\<open>self._group.kill()\<close> and \<^verbatim>\<open>fn(self)\<close> of a stop handler.\<close>

datatype call = Group_kill | Stop_handler callback

text \<open>
  The attributes of \<^verbatim>\<open>Client\<close> that the nick handling and \<^verbatim>\<open>stop\<close> read or write.
  \<open>nick\<close> and \<open>new_nick\<close> are \<^verbatim>\<open>_nick\<close> and \<^verbatim>\<open>_new_nick\<close>: a string or \<^verbatim>\<open>None\<close>. The sets
  are Python sets; a dictionary is a map; a queue is the list of its items, or \<^verbatim>\<open>None\<close>
  once \<^verbatim>\<open>stop\<close> has dropped it. \<open>calls\<close> is not an attribute: it collects the calls that
  leave the client, without their order (a set is iterated in no fixed order).
\<close>

record 'm client =
  nick :: "string option"
  new_nick :: "string option"
  started :: bool
  stopped :: bool
  stop_handlers :: "callback fset"
  greenlets :: "greenlet fset"
  channels :: "string \<rightharpoonup> backref"
  users :: "string \<rightharpoonup> backref"
  message_handlers :: "handler fset"
  send_queue :: "'m list option"
  recv_queue :: "'m list option"
  calls :: "call multiset"

text \<open>
  The collaborators of the client. First what \<^verbatim>\<open>client.py\<close> calls and does not define:
  the message classes of \<^verbatim>\<open>girc.message\<close> (a constructor returns a message or raises) and
  \<^verbatim>\<open>Message.send\<close>. Then the two places where the calling task is suspended and other
  tasks may change the client: the method \<^verbatim>\<open>wait_for_messages\<close> (it sends a \<^verbatim>\<open>Ping\<close> and
  waits for the matching \<^verbatim>\<open>Pong\<close> or a timeout), and the wait for \<^verbatim>\<open>_nick_lock\<close> when
  another task holds it (\<open>lock_wait\<close> gives the client as it is once the lock is acquired).
  Last the stop handlers, which are functions given by the user of the client:
  \<open>stop_handler fn\<close> is the call \<^verbatim>\<open>fn(self)\<close>, which may change the client and may raise,
  and \<open>iteration\<close> is the order in which Python iterates a set, some enumeration of its
  elements. A call that may raise returns the raised object, if any, next to the client as it
  has left it.
\<close>

record 'm collab =
  message_Nick :: "'m client \<Rightarrow> string \<Rightarrow> raised + 'm"
  message_Quit :: "'m client \<Rightarrow> string \<Rightarrow> raised + 'm"
  send :: "'m \<Rightarrow> 'm client \<Rightarrow> raised option \<times> 'm client"
  wait_for_messages :: "'m client \<Rightarrow> raised option \<times> 'm client"
  lock_wait :: "'m client \<Rightarrow> 'm client"
  stop_handler :: "callback \<Rightarrow> 'm client \<Rightarrow> raised option \<times> 'm client"
  iteration :: "callback fset \<Rightarrow> callback list"

text \<open>\<^verbatim>\<open>Client.quit(msg)\<close> with \<^verbatim>\<open>block=False\<close>\<close>

definition quit :: "'m collab \<Rightarrow> string \<Rightarrow> 'm client \<Rightarrow> raised option \<times> 'm client" where
  "quit E msg c =
     (case message_Quit E c msg of
        Inl e \<Rightarrow> (Some e, c)
      | Inr m \<Rightarrow> send E m c)"

text \<open>
  The inner \<^verbatim>\<open>try\<close> of the nick setter with its \<^verbatim>\<open>except Exception\<close> clause: \<^verbatim>\<open>send\<close>, then
  \<^verbatim>\<open>wait_for_messages\<close>; an \<^verbatim>\<open>Exception\<close> from either calls \<^verbatim>\<open>quit\<close> and is raised again
  (an exception raised by \<^verbatim>\<open>quit\<close> itself replaces it).
\<close>

definition send_and_wait :: "'m collab \<Rightarrow> 'm \<Rightarrow> 'm client \<Rightarrow> raised option \<times> 'm client" where
  "send_and_wait E nick_msg c =
     (let (r, c) =
            (case send E nick_msg c of
               (Some e, c) \<Rightarrow> (Some e, c)
             | (None, c) \<Rightarrow> wait_for_messages E c)
      in case r of
           None \<Rightarrow> (None, c)
         | Some e \<Rightarrow>
             if is_Exception e then
               (case quit E ''Unrecoverable error while changing nick'' c of
                  (Some e', c) \<Rightarrow> (Some e', c)
                | (None, c) \<Rightarrow> (Some e, c))
             else (Some e, c))"

text \<open>
  The setter of \<^verbatim>\<open>Client.nick\<close>. \<open>held\<close> says whether the calling task holds
  \<^verbatim>\<open>_nick_lock\<close> already (the lock is reentrant); otherwise the task waits for it. The
  result is the exception that leaves the setter, if any, and the client.
\<close>

definition nick_setter ::
  "'m collab \<Rightarrow> bool \<Rightarrow> string \<Rightarrow> 'm client \<Rightarrow> raised option \<times> 'm client" where
  "nick_setter E held new c =
     (let c = (if held then c else lock_wait E c);
          c = c\<lparr>new_nick := Some new\<rparr>;
          (r, c) =
            (case message_Nick E c new of
               Inl e \<Rightarrow> (Some e, c)
             | Inr nick_msg \<Rightarrow>
                 (case send_and_wait E nick_msg c of
                    (Some e, c) \<Rightarrow> (Some e, c)
                  | (None, c) \<Rightarrow> (None, c\<lparr>nick := new_nick c\<rparr>)))
      in (r, c\<lparr>new_nick := None\<rparr>))"

text \<open>\<^verbatim>\<open>Client.matches_nick\<close>: \<^verbatim>\<open>value in (self._nick, self._new_nick)\<close>\<close>

definition matches_nick :: "'m client \<Rightarrow> string option \<Rightarrow> bool" where
  "matches_nick c v = (v \<in> set [nick c, new_nick c])"

text \<open>The truth value of a string or \<^verbatim>\<open>None\<close> in a condition.\<close>

fun truthy :: "string option \<Rightarrow> bool" where
  "truthy None = False"
| "truthy (Some s) = (s \<noteq> [])"

text \<open>
  The handler \<^verbatim>\<open>nick_in_use\<close> of \<^verbatim>\<open>ERR_NICKNAMEINUSE\<close>, given \<^verbatim>\<open>msg.params\<close>. The first
  part runs before the lock is taken and decides whether the handler goes on (\<open>Some\<close>) or
  returns (\<open>None\<close>). Under the lock, \<^verbatim>\<open>self.nick = self.increment_nick(self._nick)\<close> evaluates
  \<^verbatim>\<open>self.increment_nick\<close> first: \<^verbatim>\<open>Client\<close> defines no such attribute, so this raises
  \<^verbatim>\<open>AttributeError\<close> and the setter is not entered.
\<close>

definition nick_in_use_check :: "string \<Rightarrow> 'm client \<Rightarrow> 'm client option" where
  "nick_in_use_check bad_nick c =
     (if truthy (new_nick c) then
        (if Some bad_nick \<noteq> new_nick c then None
         else Some (c\<lparr>new_nick := nick c\<rparr>))
      else
        (if Some bad_nick \<noteq> nick c then None
         else Some c))"

definition nick_in_use ::
  "'m collab \<Rightarrow> string list \<Rightarrow> 'm client \<Rightarrow> raised option \<times> 'm client" where
  "nick_in_use E msg_params c =
     (case msg_params of
        [] \<Rightarrow> (Some (Exception ''IndexError''), c)
      | bad_nick # _ \<Rightarrow>
          (case nick_in_use_check bad_nick c of
             None \<Rightarrow> (None, c)
           | Some c \<Rightarrow>
               (let c = lock_wait E c
                in if Some bad_nick \<noteq> nick c then (None, c)
                   else (Some (Exception ''AttributeError''), c))))"





subsection \<open>A concrete client and its collaborators\<close>

text \<open>
  The theorems below are instantiated at this client: nick \<^verbatim>\<open>alice\<close>, no change in flight,
  two stop handlers. Its messages are given by their text; \<^verbatim>\<open>send\<close> puts the message on the
  send queue, as \<^verbatim>\<open>Client._send\<close> does. While a change is in flight its task holds the lock,
  so the lock is acquired once that change has completed: \<open>lock_wait\<close> is then the end of
  the setter (\<^verbatim>\<open>self._nick = self._new_nick\<close>, then \<^verbatim>\<open>self._new_nick = None\<close>). The stop
  handlers return and change nothing, and a set is iterated in ascending order.
\<close>

definition alice :: "string client" where
  "alice =
     \<lparr>nick = Some ''alice'', new_nick = None, started = True, stopped = False,
      stop_handlers = {|1, 2|}, greenlets = {|1, 2|},
      channels = [''#chan'' \<mapsto> ThisClient], users = Map.empty,
      message_handlers = {|1|}, send_queue = Some [], recv_queue = Some [],
      calls = {#}\<rparr>"

definition server :: "string collab" where
  "server =
     \<lparr>message_Nick = (\<lambda>c n. Inr (''NICK '' @ n)),
      message_Quit = (\<lambda>c msg. Inr (''QUIT :'' @ msg)),
      send = (\<lambda>m c. (None, c\<lparr>send_queue := map_option (\<lambda>q. q @ [m]) (send_queue c)\<rparr>)),
      wait_for_messages = (\<lambda>c. (None, c)),
      lock_wait =
        (\<lambda>c. if new_nick c = None then c else c\<lparr>nick := new_nick c, new_nick := None\<rparr>),
      stop_handler = (\<lambda>fn c. (None, c)),
      iteration = sorted_list_of_fset\<rparr>"


section \<open>Properties of the frame codec\<close>

lemmas char_defs = DELIM_def CR_def NL_def NUL_def X_DELIM_def X_QUOTE_def M_QUOTE_def

lemmas quote_defs =
  low_level_quote_def low_level_dequote_def ctcp_quote_def ctcp_dequote_def
  quote_def dequote_def slice_def invert_table_def
  low_level_quote_table_def low_level_dequote_table_def
  ctcp_quote_table_def ctcp_dequote_table_def

subsection \<open>Splitting what was joined\<close>

lemma split_once_char: "d \<notin> set a \<Longrightarrow> split_once [d] (a @ d # b) = Some (a, b)"
  by (induction a) auto

lemma split_once_char_none: "d \<notin> set a \<Longrightarrow> split_once [d] a = None"
  by (induction a) auto

lemma split_all_nonempty: "split_all d s \<noteq> []"
  by (induction s) (auto simp: Let_def)

lemma split_all_clean: "d \<notin> set x \<Longrightarrow> split_all d x = [x]"
  by (induction x) (auto simp: Let_def)

lemma split_all_append: "d \<notin> set x \<Longrightarrow> split_all d (x @ d # r) = x # split_all d r"
  by (induction x) (auto simp: Let_def)

lemma split_all_join:
  "xs \<noteq> [] \<Longrightarrow> \<forall>x \<in> set xs. d \<notin> set x \<Longrightarrow> split_all d (join [d] xs) = xs"
  by (induction "[d]" xs rule: join.induct) (auto simp: split_all_clean split_all_append)

lemma join_snoc: "xs \<noteq> [] \<Longrightarrow> join sep (xs @ [y]) = join sep xs @ sep @ y"
  by (induction sep xs rule: join.induct) auto

lemma split_all_join_delim:
  assumes "xs \<noteq> []" "\<forall>x \<in> set xs. d \<notin> set x"
  shows "split_all d (join [d] xs @ [d]) = xs @ [[]]"
proof -
  have "join [d] xs @ [d] = join [d] (xs @ [[]])"
    using assms(1) by (simp add: join_snoc)
  moreover have "split_all d (join [d] (xs @ [[]])) = xs @ [[]]"
    using assms by (intro split_all_join) auto
  ultimately show ?thesis by simp
qed

lemma split_once_marker_hit:
  "DELIM \<notin> set p \<Longrightarrow> split_once (DELIM # '':'') (p @ DELIM # CHR '':'' # t) = Some (p, t)"
  by (induction p) auto

lemma split_once_marker_skip:
  "DELIM \<notin> set p \<Longrightarrow> r = [] \<or> hd r \<noteq> CHR '':'' \<Longrightarrow>
   split_once (DELIM # '':'') (p @ DELIM # r) =
     map_option (\<lambda>(a, b). (p @ DELIM # a, b)) (split_once (DELIM # '':'') r)"
proof (induction p)
  case Nil
  then show ?case by (cases r) (auto simp: option.map_ident)
next
  case (Cons c p)
  then show ?case by (auto simp: option.map_comp comp_def split_def)
qed


lemma hd_join_tail:
  "\<not> startswith y '':'' \<Longrightarrow> hd (join [DELIM] (y # ys) @ DELIM # r) \<noteq> CHR '':''"
  by (cases y; cases ys) (auto simp: startswith_def DELIM_def)

lemma split_once_tail:
  assumes "rps \<noteq> []" "\<forall>p \<in> set rps. DELIM \<notin> set p"
    "\<forall>p \<in> set (tl rps). \<not> startswith p '':''"
  shows "split_once (DELIM # '':'') (join [DELIM] rps @ DELIM # CHR '':'' # t)
           = Some (join [DELIM] rps, t)"
    and "split_once (DELIM # '':'') (join [DELIM] rps @ [DELIM]) = None"
  using assms
proof (induction "[DELIM]" rps rule: join.induct)
  case 1
  { case 1 then show ?case by simp
  next case 2 then show ?case by simp }
next
  case (2 x)
  { case 1 then show ?case by (simp add: split_once_marker_hit)
  next case 2 then show ?case by (simp add: split_once_marker_skip) }
next
  case (3 x y ys)
  { case 1
    have "split_once (DELIM # '':'') (x @ DELIM # (join [DELIM] (y # ys) @ DELIM # CHR '':'' # t))
        = map_option (\<lambda>(a, b). (x @ DELIM # a, b))
            (split_once (DELIM # '':'') (join [DELIM] (y # ys) @ DELIM # CHR '':'' # t))"
      using 1 by (intro split_once_marker_skip) (auto simp: hd_join_tail)
    also have "split_once (DELIM # '':'') (join [DELIM] (y # ys) @ DELIM # CHR '':'' # t)
        = Some (join [DELIM] (y # ys), t)"
      using 1 3(1) by auto
    finally show ?case by simp
  next
    case 2
    have "split_once (DELIM # '':'') (x @ DELIM # (join [DELIM] (y # ys) @ [DELIM]))
        = map_option (\<lambda>(a, b). (x @ DELIM # a, b))
            (split_once (DELIM # '':'') (join [DELIM] (y # ys) @ [DELIM]))"
      using 2 by (intro split_once_marker_skip) (auto simp: hd_join_tail)
    also have "split_once (DELIM # '':'') (join [DELIM] (y # ys) @ [DELIM]) = None"
      using 2 3(2) by auto
    finally show ?case by simp }
qed


lemma irc_unsplit_list:
  "rps \<noteq> [] \<Longrightarrow>
   irc_unsplit None cmd (PList (rps @ [t])) =
     Inr (cmd @ DELIM # join [DELIM] rps @ DELIM # (if t \<noteq> [] then CHR '':'' # t else []))"
  by (simp add: irc_unsplit_def)

lemma startswith_command:
  "\<not> startswith cmd '':'' \<Longrightarrow> \<not> startswith (cmd @ DELIM # r) '':''"
  by (cases cmd) (auto simp: startswith_def DELIM_def)

lemma irc_split_line:
  assumes "rps \<noteq> []" "\<forall>p \<in> set rps. DELIM \<notin> set p"
    "\<forall>p \<in> set (tl rps). \<not> startswith p '':''"
    "DELIM \<notin> set cmd" "\<not> startswith cmd '':''"
  shows "irc_split (cmd @ DELIM # join [DELIM] rps @ DELIM # (if t \<noteq> [] then CHR '':'' # t else []))
           = Inr ([], cmd, rps @ [t])"
proof (cases "t = []")
  case True
  then show ?thesis
    using assms
    by (simp add: irc_split_def startswith_command split_once_char split_once_tail(2)
        split_all_join_delim)
next
  case False
  then show ?thesis
    using assms
    by (simp add: irc_split_def startswith_command split_once_char split_once_tail(1)
        split_all_join)
qed


subsection \<open>Round trip of a message\<close>

text \<open>
  Claim C1, which says that \<open>decode (encode m) = m\<close> for every message whose non-trailing
  parameters are free of space, NUL, CR and LF, and that \<^verbatim>\<open>encode\<close> and \<^verbatim>\<open>decode\<close> are
  mutually inverse, does not hold of the code. The instances below are, in this order:
  a single parameter (its marker comes back as part of the parameter, with the CR LF of the
  line when that is not removed first); no parameter (an empty parameter comes back); a
  prefix, without and with a leading colon (it is written without the colon that decoding
  expects, and never comes back as given); a later non-trailing parameter that begins with a
  colon; a command with a space; a command that begins with a colon; and a decoded message,
  whose prefix is the empty string, encoded again (the line comes back with a space before
  the command).
\<close>

theorem decode_encode_counterexample:
  "encode \<lparr>prefix = None, command = ''NICK'', params = PList [''bob'']\<rparr>
     = Inr (''NICK :bob'' @ [CR, NL]) \<and>
   decode (''NICK :bob'')
     = Inr \<lparr>prefix = Some ([]), command = ''NICK'', params = PList ['':bob'']\<rparr> \<and>
   decode (''NICK :bob'' @ [CR, NL])
     = Inr \<lparr>prefix = Some ([]), command = ''NICK'', params = PList ['':bob'' @ [CR, NL]]\<rparr> \<and>
   encode \<lparr>prefix = None, command = ''QUIT'', params = PList []\<rparr>
     = Inr (''QUIT '' @ [CR, NL]) \<and>
   decode (''QUIT '')
     = Inr \<lparr>prefix = Some ([]), command = ''QUIT'', params = PList [[]]\<rparr> \<and>
   encode \<lparr>prefix = Some (''srv''), command = ''PRIVMSG'', params = PList [''#c'', ''hi'']\<rparr>
     = Inr (''srv PRIVMSG #c :hi'' @ [CR, NL]) \<and>
   decode (''srv PRIVMSG #c :hi'')
     = Inr \<lparr>prefix = Some ([]), command = ''srv'', params = PList [''PRIVMSG'', ''#c'', ''hi'']\<rparr> \<and>
   encode \<lparr>prefix = Some ('':srv''), command = ''PRIVMSG'', params = PList [''#c'', ''hi'']\<rparr>
     = Inr ('':srv PRIVMSG #c :hi'' @ [CR, NL]) \<and>
   decode ('':srv PRIVMSG #c :hi'')
     = Inr \<lparr>prefix = Some (''srv''), command = ''PRIVMSG'', params = PList [''#c'', ''hi'']\<rparr> \<and>
   encode \<lparr>prefix = None, command = ''CMD'', params = PList [''a'', '':b'', ''c'']\<rparr>
     = Inr (''CMD a :b :c'' @ [CR, NL]) \<and>
   decode (''CMD a :b :c'')
     = Inr \<lparr>prefix = Some ([]), command = ''CMD'', params = PList [''a'', ''b :c'']\<rparr> \<and>
   encode \<lparr>prefix = None, command = ''A B'', params = PList [''x'', ''y'']\<rparr>
     = Inr (''A B x :y'' @ [CR, NL]) \<and>
   decode (''A B x :y'')
     = Inr \<lparr>prefix = Some ([]), command = ''A'', params = PList [''B'', ''x'', ''y'']\<rparr> \<and>
   encode \<lparr>prefix = None, command = '':A'', params = PList [''x'', ''y'']\<rparr>
     = Inr ('':A x :y'' @ [CR, NL]) \<and>
   decode ('':A x :y'')
     = Inr \<lparr>prefix = Some (''A''), command = ''x'', params = PList ['':y'']\<rparr> \<and>
   decode (''PRIVMSG #c :hi'')
     = Inr \<lparr>prefix = Some ([]), command = ''PRIVMSG'', params = PList [''#c'', ''hi'']\<rparr> \<and>
   encode \<lparr>prefix = Some ([]), command = ''PRIVMSG'', params = PList [''#c'', ''hi'']\<rparr>
     = Inr ('' PRIVMSG #c :hi'' @ [CR, NL])"
  by (simp add: encode_def decode_def irc_unsplit_def irc_split_def startswith_def char_defs)

text \<open>
  Claim C1 as amended: let \<open>m\<close> be a message without prefix, whose command has no space and
  does not begin with a colon, with at least two parameters, whose non-trailing parameters
  contain no space, NUL, CR or LF and do not begin with a colon. Then \<^verbatim>\<open>encode\<close> returns a
  line ending in CR LF, and decoding that line without the CR LF returns the command and the
  parameter sequence of \<open>m\<close>, with the empty string as prefix.
\<close>

theorem decode_encode_roundtrip:
  assumes "prefix m = None" "params m = PList ps" "butlast ps \<noteq> []"
    "DELIM \<notin> set (command m)" "\<not> startswith (command m) '':''"
    "\<forall>p \<in> set (butlast ps).
       DELIM \<notin> set p \<and> NUL \<notin> set p \<and> CR \<notin> set p \<and> NL \<notin> set p \<and> \<not> startswith p '':''"
  shows "\<exists>line. encode m = Inr (line @ [CR, NL]) \<and>
                decode line = Inr (m\<lparr>prefix := Some []\<rparr>)"
proof -
  from assms(3) have ps: "ps = butlast ps @ [last ps]" by (cases ps) auto
  let ?line = "command m @ DELIM # join [DELIM] (butlast ps) @ DELIM #
                 (if last ps \<noteq> [] then CHR '':'' # last ps else [])"
  have "irc_unsplit None (command m) (PList (butlast ps @ [last ps])) = Inr ?line"
    using assms(3) by (rule irc_unsplit_list)
  then have enc: "encode m = Inr (?line @ [CR, NL])"
    using assms(1,2) ps by (simp add: encode_def)
  have later: "\<forall>p \<in> set (tl (butlast ps)). \<not> startswith p '':''"
    using assms(3,6) by (cases "butlast ps") auto
  have "irc_split ?line = Inr ([], command m, butlast ps @ [last ps])"
    using assms(3) _ later assms(4,5) by (rule irc_split_line) (use assms(6) in auto)
  then have "decode ?line = Inr (m\<lparr>prefix := Some []\<rparr>)"
    using assms(1,2) ps by (simp add: decode_def)
  with enc show ?thesis by blast
qed

theorem decode_encode_roundtrip_witness:
  "prefix \<lparr>prefix = None, command = ''PRIVMSG'', params = PList [''#chan'', ''hello there'']\<rparr> = None \<and>
   butlast [''#chan'', ''hello there''] \<noteq> [] \<and>
   (\<exists>line.
      encode \<lparr>prefix = None, command = ''PRIVMSG'', params = PList [''#chan'', ''hello there'']\<rparr>
        = Inr (line @ [CR, NL]) \<and>
      decode line
        = Inr \<lparr>prefix = Some [], command = ''PRIVMSG'', params = PList [''#chan'', ''hello there'']\<rparr>)"
  using decode_encode_roundtrip
    [of "\<lparr>prefix = None, command = ''PRIVMSG'', params = PList [''#chan'', ''hello there'']\<rparr>"
        "[''#chan'', ''hello there'']"]
  by (simp add: startswith_def char_defs)

subsection \<open>The two scenarios\<close>

text \<open>
  Claim C4, which says that \<^verbatim>\<open>Message("NICK", ["bob"])\<close> is encoded as \<^verbatim>\<open>"NICK bob\r\n"\<close>,
  does not hold of the code.
\<close>

theorem encode_nick_bob_counterexample:
  "encode \<lparr>prefix = None, command = ''NICK'', params = PList [''bob'']\<rparr>
     \<noteq> Inr (''NICK bob'' @ [CR, NL])"
  by (simp add: encode_def irc_unsplit_def char_defs)

text \<open>
  Claim C4 as amended: encoding \<^verbatim>\<open>Message("NICK", ["bob"])\<close> produces exactly the line
  \<^verbatim>\<open>"NICK :bob"\<close> followed by CR LF, that is, the single parameter is rendered with the
  trailing marker.
\<close>

theorem encode_nick_bob:
  "encode \<lparr>prefix = None, command = ''NICK'', params = PList [''bob'']\<rparr>
     = Inr (''NICK :bob'' @ [CR, NL])"
  by (simp add: encode_def irc_unsplit_def char_defs)

text \<open>
  Claim C5 says that decoding \<^verbatim>\<open>"PING :abc123"\<close> yields command \<^verbatim>\<open>PING\<close> and parameters
  \<^verbatim>\<open>["abc123"]\<close>. The code searches the parameter tail \<^verbatim>\<open>":abc123"\<close> for a space followed by
  a colon, finds none, and returns the parameters \<^verbatim>\<open>[":abc123"]\<close>.
\<close>

theorem decode_ping_failing:
  "decode ''PING :abc123''
     = Inr \<lparr>prefix = Some [], command = ''PING'', params = PList ['':abc123'']\<rparr>"
  by (simp add: decode_def irc_split_def startswith_def char_defs)

subsection \<open>Validation at encode time\<close>

text \<open>
  Claim C6, which says that \<^verbatim>\<open>encode\<close> fails when a non-trailing parameter contains the
  separator or a control byte, does not hold of the code: such a message is encoded, the
  bytes copied into the line.
\<close>

theorem encode_unvalidated_counterexample:
  "encode \<lparr>prefix = None, command = ''PRIVMSG'',
           params = PList [''a b'', [CHR ''c'', CR, NL, NUL], ''d'']\<rparr>
     = Inr (''PRIVMSG a b c'' @ [CR, NL, NUL] @ '' :d'' @ [CR, NL])"
  by (simp add: encode_def irc_unsplit_def char_defs)

lemma join_concat:
  "rps \<noteq> [] \<Longrightarrow> join [d] rps @ [d] = concat (map (\<lambda>q. q @ [d]) rps)"
  by (induction "[d]" rps rule: join.induct) auto

text \<open>
  Claim C6 as amended: \<^verbatim>\<open>encode\<close> does not validate the parameters of a list. For every
  prefix, command and list of parameters it returns the line made of the prefix and a
  separator (when there is a prefix), the command and a separator, every non-trailing
  parameter followed by a separator, the trailing marker and the last parameter (when there
  is one and it is not empty), and CR LF: every byte of every parameter is copied into the
  line as it is, a separator or a control byte in a non-trailing parameter too, and
  \<^verbatim>\<open>encode\<close> does not fail.
\<close>

theorem encode_list_copies:
  "encode \<lparr>prefix = p, command = c, params = PList ps\<rparr> =
     Inr ((case p of None \<Rightarrow> [] | Some x \<Rightarrow> x @ [DELIM]) @ c @ [DELIM] @
          concat (map (\<lambda>q. q @ [DELIM]) (butlast ps)) @
          (case ps of [] \<Rightarrow> [] | _ # _ \<Rightarrow> if last ps = [] then [] else CHR '':'' # last ps) @
          [CR, NL])"
proof (cases "butlast ps = []")
  case True
  then show ?thesis
    by (cases ps; cases p) (simp_all add: encode_def irc_unsplit_def)
next
  case False
  then have "ps \<noteq> []" by auto
  with False join_concat [of "butlast ps" DELIM] show ?thesis
    by (cases ps; cases p) (simp_all add: encode_def irc_unsplit_def)
qed

section \<open>Properties of the quoting layers\<close>

text \<open>
  Claim C2 says that \<open>dequote (quote s) = s\<close> for both quoting layers and every \<open>s\<close>. The code
  does not quote the first byte, and \<^verbatim>\<open>_dequote\<close> copies the escape byte of every pair it
  replaces: \<^verbatim>\<open>"a\nb"\<close> comes back as \<^verbatim>\<open>"a\x10\nb"\<close>, \<^verbatim>\<open>"\x10n"\<close> as \<^verbatim>\<open>"\x10\n"\<close>, and in
  the tag layer \<^verbatim>\<open>"a\x01"\<close> as \<^verbatim>\<open>"a\x86\x01"\<close>.
\<close>

theorem dequote_quote_failing:
  "low_level_dequote (low_level_quote [CHR ''a'', NL, CHR ''b''])
     = [CHR ''a'', M_QUOTE, NL, CHR ''b''] \<and>
   low_level_dequote (low_level_quote [M_QUOTE, CHR ''n'']) = [M_QUOTE, NL] \<and>
   ctcp_dequote (ctcp_quote [CHR ''a'', X_DELIM]) = [CHR ''a'', X_QUOTE, X_DELIM]"
  by (simp add: quote_defs char_defs)

section \<open>Properties of the extended-message codec\<close>

subsection \<open>Quoting a string without special bytes\<close>

lemma quote_loop_clean:
  "\<forall>ch \<in> set cs. map_of table [ch] = None \<Longrightarrow>
   quote_loop table s pos cs (cursor, buf) = (cursor, buf)"
  by (induction cs arbitrary: pos) auto

lemma quote_clean: "\<forall>ch \<in> set s. map_of table [ch] = None \<Longrightarrow> quote s table = s"
  by (simp add: quote_def quote_loop_clean)

lemma low_level_quote_clean:
  "NUL \<notin> set s \<Longrightarrow> NL \<notin> set s \<Longrightarrow> CR \<notin> set s \<Longrightarrow> M_QUOTE \<notin> set s \<Longrightarrow>
   low_level_quote s = s"
  unfolding low_level_quote_def
  by (rule quote_clean) (auto simp: low_level_quote_table_def)

lemma ctcp_quote_clean:
  "X_DELIM \<notin> set s \<Longrightarrow> X_QUOTE \<notin> set s \<Longrightarrow> ctcp_quote s = s"
  unfolding ctcp_quote_def
  by (rule quote_clean) (auto simp: ctcp_quote_table_def)

lemma dequote_loop_clean:
  assumes "\<And>k. k \<in> fst ` set table \<Longrightarrow> \<exists>c. k = [q, c]"
    and "q \<notin> set cs" and "last_char = [] \<or> (\<exists>l. last_char = [l] \<and> l \<noteq> q)"
  shows "\<exists>lc. dequote_loop table s pos cs (cursor, buf, last_char) = (cursor, buf, lc)"
  using assms(2,3)
proof (induction cs arbitrary: pos last_char)
  case Nil
  then show ?case by simp
next
  case (Cons ch cs)
  have "last_char @ [ch] \<notin> fst ` set table"
  proof
    assume "last_char @ [ch] \<in> fst ` set table"
    then obtain c where "last_char @ [ch] = [q, c]"
      using assms(1) by blast
    with Cons.prems(2) show False by auto
  qed
  then have "map_of table (last_char @ [ch]) = None"
    by (simp add: map_of_eq_None_iff)
  moreover have "\<exists>lc. dequote_loop table s (pos + 1) cs (cursor, buf, [ch]) = (cursor, buf, lc)"
    using Cons.prems by (intro Cons.IH) auto
  ultimately show ?case by auto
qed

lemma dequote_clean:
  assumes "\<And>k. k \<in> fst ` set table \<Longrightarrow> \<exists>c. k = [q, c]" and "q \<notin> set s"
  shows "dequote s table = s"
proof -
  obtain lc where "dequote_loop table s 0 s (0, [], []) = (0, [], lc)"
    using dequote_loop_clean [where table = table and q = q and cs = s and last_char = "[]"
        and s = s and pos = 0 and cursor = 0 and buf = "[]"] assms
    by auto
  then show ?thesis by (simp add: dequote_def)
qed

lemma low_level_dequote_clean: "M_QUOTE \<notin> set s \<Longrightarrow> low_level_dequote s = s"
  unfolding low_level_dequote_def
  by (rule dequote_clean [where q = M_QUOTE])
     (auto simp: low_level_dequote_table_def low_level_quote_table_def invert_table_def)

lemma ctcp_dequote_clean: "X_QUOTE \<notin> set s \<Longrightarrow> ctcp_dequote s = s"
  unfolding ctcp_dequote_def
  by (rule dequote_clean [where q = X_QUOTE])
     (auto simp: ctcp_dequote_table_def ctcp_quote_table_def invert_table_def)


subsection \<open>Segments between delimiter bytes\<close>

lemma foldl_append_concat:
  "foldl (\<lambda>buf p. buf @ f p) acc ps = acc @ concat (map f ps)"
  by (induction ps arbitrary: acc) auto

lemma ctcp_buf_concat:
  "ctcp_buf es = concat (map (\<lambda>p. X_DELIM # ctcp_quote (ctcp_body p) @ [X_DELIM]) es)"
  using foldl_append_concat [of "\<lambda>p. [X_DELIM] @ ctcp_quote (ctcp_body p) @ [X_DELIM]" "[]" es]
  by (simp add: ctcp_buf_def)

lemma split_all_segments:
  "d \<notin> set pre \<Longrightarrow> \<forall>b \<in> set bs. d \<notin> set b \<Longrightarrow>
   split_all d (pre @ concat (map (\<lambda>b. d # b @ [d]) bs)) = pre # concat (map (\<lambda>b. [b, []]) bs)"
proof (induction bs arbitrary: pre)
  case Nil
  then show ?case by (simp add: split_all_clean)
next
  case (Cons b bs)
  have "split_all d (pre @ d # (b @ d # concat (map (\<lambda>b. d # b @ [d]) bs)))
      = pre # split_all d (b @ d # concat (map (\<lambda>b. d # b @ [d]) bs))"
    using Cons.prems(1) by (rule split_all_append)
  also have "split_all d (b @ d # concat (map (\<lambda>b. d # b @ [d]) bs))
      = b # split_all d ([] @ concat (map (\<lambda>b. d # b @ [d]) bs))"
    using Cons.prems(2) by (simp add: split_all_append)
  also have "split_all d ([] @ concat (map (\<lambda>b. d # b @ [d]) bs))
      = [] # concat (map (\<lambda>b. [b, []]) bs)"
    using Cons.prems(2) by (intro Cons.IH) auto
  finally show ?case by simp
qed


lemma set_join: "set (join sep xs) \<subseteq> set sep \<union> \<Union> (set ` set xs)"
  by (induction sep xs rule: join.induct) auto

lemma split_body:
  assumes "DELIM \<notin> set tag" "data = DNone \<or> (\<exists>d. data = DStr d \<and> d \<noteq> [])"
  shows "(case split_once [DELIM] (ctcp_body (tag, data)) of
            None \<Rightarrow> (ctcp_body (tag, data), DNone)
          | Some (t, d) \<Rightarrow> (t, DStr d)) = (tag, data)"
  using assms by (auto simp: split_once_char split_once_char_none)

lemma set_body:
  assumes "data = DNone \<or> (\<exists>d. data = DStr d \<and> ch \<notin> set d)" "ch \<notin> set tag" "ch \<noteq> DELIM"
  shows "ch \<notin> set (ctcp_body (tag, data))"
  using assms by (auto split: if_splits)

lemma body_nonempty: "tag \<noteq> [] \<Longrightarrow> ctcp_body (tag, data) \<noteq> []"
  by (cases data) auto

lemma ctcp_decode_loop_entries:
  assumes "\<forall>(tag, data) \<in> set es.
             tag \<noteq> [] \<and> DELIM \<notin> set tag \<and> X_QUOTE \<notin> set tag \<and>
             (data = DNone \<or> (\<exists>d. data = DStr d \<and> d \<noteq> [] \<and> X_QUOTE \<notin> set d))"
  shows "ctcp_decode_loop (concat (map (\<lambda>b. [b, []]) (map ctcp_body es))) True (ext, normal)
           = (ext @ es, normal)"
  using assms
proof (induction es arbitrary: ext)
  case Nil
  then show ?case by simp
next
  case (Cons e es)
  obtain tag data where e: "e = (tag, data)" by (cases e)
  from Cons.prems e have tag: "tag \<noteq> []" "DELIM \<notin> set tag" "X_QUOTE \<notin> set tag"
    and data: "data = DNone \<or> (\<exists>d. data = DStr d \<and> d \<noteq> [] \<and> X_QUOTE \<notin> set d)"
    by auto
  have ne: "ctcp_body (tag, data) \<noteq> []"
    using tag(1) by (rule body_nonempty)
  have "X_QUOTE \<notin> set (ctcp_body (tag, data))"
    using data tag(3) by (intro set_body) (auto simp: char_defs)
  then have dq: "ctcp_dequote (ctcp_body (tag, data)) = ctcp_body (tag, data)"
    by (rule ctcp_dequote_clean)
  have sp: "(case split_once [DELIM] (ctcp_body (tag, data)) of
               None \<Rightarrow> (ctcp_body (tag, data), DNone)
             | Some (t, d) \<Rightarrow> (t, DStr d)) = (tag, data)"
    using tag(2) data by (intro split_body) auto
  have "ctcp_decode_loop (concat (map (\<lambda>b. [b, []]) (map ctcp_body (e # es)))) True (ext, normal)
      = ctcp_decode_loop (concat (map (\<lambda>b. [b, []]) (map ctcp_body es))) True
          (ext @ [(tag, data)], normal)"
    using ne dq sp by (simp add: e)
  also have "\<dots> = ((ext @ [(tag, data)]) @ es, normal)"
    using Cons.prems by (intro Cons.IH) auto
  finally show ?case by (simp add: e)
qed


lemma set_segments:
  "set (concat (map (\<lambda>b. d # b @ [d]) bs)) \<subseteq> {d} \<union> \<Union> (set ` set bs)"
  by (induction bs) auto

lemma ctcp_decode_line:
  assumes ps: "ps \<noteq> []"
    "\<forall>p \<in> set ps. p \<noteq> [] \<and> DELIM \<notin> set p \<and> X_DELIM \<notin> set p \<and> M_QUOTE \<notin> set p"
    and es: "\<forall>(tag, data) \<in> set es.
             tag \<noteq> [] \<and> DELIM \<notin> set tag \<and> X_QUOTE \<notin> set tag \<and>
             (data = DNone \<or> (\<exists>d. data = DStr d \<and> d \<noteq> [] \<and> X_QUOTE \<notin> set d))"
    and bodies: "\<forall>e \<in> set es. X_DELIM \<notin> set (ctcp_body e) \<and> M_QUOTE \<notin> set (ctcp_body e)"
    and split: "irc_split line
               = Inr ([], cmd, ps @ [concat (map (\<lambda>b. X_DELIM # b @ [X_DELIM]) (map ctcp_body es))])"
  shows "ctcp_decode line
           = Inr \<lparr>prefix = Some [], command = cmd, params = PList ps, ctcp_params = es\<rparr>"
proof -
  let ?seg = "concat (map (\<lambda>b. X_DELIM # b @ [X_DELIM]) (map ctcp_body es))"
  let ?pre = "join [DELIM] ps @ [DELIM]"
  have joined: "join [DELIM] (ps @ [?seg]) = join [DELIM] ps @ DELIM # ?seg"
    using ps(1) by (simp add: join_snoc del: map_map)
  have pre_X: "X_DELIM \<notin> set ?pre"
    using ps(2) set_join [of "[DELIM]" ps] by (auto simp: char_defs)
  have pre_M: "M_QUOTE \<notin> set ?pre"
    using ps(2) set_join [of "[DELIM]" ps] by (auto simp: char_defs)
  have "M_QUOTE \<notin> set ?seg"
    using bodies set_segments [of X_DELIM "map ctcp_body es"] by (auto simp: char_defs)
  with pre_M have "M_QUOTE \<notin> set (join [DELIM] ps @ DELIM # ?seg)" by simp
  then have deq: "low_level_dequote (join [DELIM] ps @ DELIM # ?seg) = join [DELIM] ps @ DELIM # ?seg"
    by (rule low_level_dequote_clean)
  have "split_all X_DELIM (?pre @ ?seg) = ?pre # concat (map (\<lambda>b. [b, []]) (map ctcp_body es))"
    using pre_X bodies by (intro split_all_segments) auto
  then have segs: "split_all X_DELIM (join [DELIM] ps @ DELIM # ?seg)
      = ?pre # concat (map (\<lambda>b. [b, []]) (map ctcp_body es))"
    by (simp del: map_map)
  have "split_all DELIM ?pre = ps @ [[]]"
    using ps by (intro split_all_join_delim) auto
  moreover have "filter (\<lambda>w. w \<noteq> []) ps = ps"
    using ps(2) by (simp add: filter_id_conv)
  ultimately have plain: "filter (\<lambda>w. w \<noteq> []) (split_all DELIM ?pre) = ps"
    by simp
  have "ctcp_decode_loop (?pre # concat (map (\<lambda>b. [b, []]) (map ctcp_body es))) False ([], [])
      = ctcp_decode_loop (concat (map (\<lambda>b. [b, []]) (map ctcp_body es))) True ([], ps)"
    using plain by (simp del: map_map)
  also have "\<dots> = ([] @ es, ps)"
    using es by (rule ctcp_decode_loop_entries)
  finally have loop:
    "ctcp_decode_loop (?pre # concat (map (\<lambda>b. [b, []]) (map ctcp_body es))) False ([], [])
       = (es, ps)"
    by simp
  have "ctcp_decode line
      = (case ctcp_decode_loop (split_all X_DELIM (low_level_dequote (join [DELIM] (ps @ [?seg]))))
                False ([], []) of
           (extended_messages, normal_messages) \<Rightarrow>
             Inr \<lparr>prefix = Some [], command = cmd, params = PList normal_messages,
                   ctcp_params = extended_messages\<rparr>)"
    using split ps(1) by (simp add: ctcp_decode_def del: ctcp_decode_loop.simps map_map)
  also have "\<dots> = Inr \<lparr>prefix = Some [], command = cmd, params = PList ps, ctcp_params = es\<rparr>"
    unfolding joined deq segs loop by simp
  finally show ?thesis .
qed


lemma ctcp_buf_clean:
  assumes "\<forall>e \<in> set es. X_DELIM \<notin> set (ctcp_body e) \<and> X_QUOTE \<notin> set (ctcp_body e)"
  shows "ctcp_buf es = concat (map (\<lambda>b. X_DELIM # b @ [X_DELIM]) (map ctcp_body es))"
proof -
  have eq: "map (\<lambda>p. X_DELIM # ctcp_quote (ctcp_body p) @ [X_DELIM]) es
      = map (\<lambda>p. X_DELIM # ctcp_body p @ [X_DELIM]) es"
    using assms by (intro map_cong) (auto simp: ctcp_quote_clean)
  show ?thesis unfolding ctcp_buf_concat eq by (simp add: comp_def)
qed


subsection \<open>Round trip of an extended message\<close>

text \<open>
  Claim C3, which says that decoding the CTCP encoding of plain tokens and \<^verbatim>\<open>(tag, data)\<close>
  pairs gives back equal sequences, does not hold of the code. The instances below are, in
  this order: the CR LF of the encoded line comes back as a plain token; then, each time
  decoding the line without its CR LF: no plain token; a prefix; an empty plain token; a
  plain token with a space; a plain token with the bytes \<^verbatim>\<open>\x10 n\<close>; a later plain token that
  begins with a colon; an empty tag; a tag with a space; an empty data; a data that is a
  sequence; a data that contains the byte \<^verbatim>\<open>\x01\<close>, \<^verbatim>\<open>\x86\<close>, NUL, CR, LF or \<^verbatim>\<open>\x10\<close> (the
  quoting layers do not give it back); a command with a space; a command that begins with a
  colon.
\<close>

theorem ctcp_roundtrip_counterexample:
  "ctcp_encode \<lparr>prefix = None, command = ''PRIVMSG'', params = PList [''bob''],
       ctcp_params = [(''ACTION'', DStr (''waves''))]\<rparr>
     = Inr (''PRIVMSG bob :'' @ [X_DELIM] @ ''ACTION waves'' @ [X_DELIM] @ [CR, NL]) \<and>
   ctcp_decode (''PRIVMSG bob :'' @ [X_DELIM] @ ''ACTION waves'' @ [X_DELIM] @ [CR, NL])
     = Inr \<lparr>prefix = Some ([]), command = ''PRIVMSG'', params = PList [''bob'', [CR, NL]],
       ctcp_params = [(''ACTION'', DStr (''waves''))]\<rparr> \<and>
   ctcp_encode \<lparr>prefix = None, command = ''PRIVMSG'', params = PList [],
       ctcp_params = [(''ACTION'', DStr (''waves''))]\<rparr>
     = Inr (''PRIVMSG :'' @ [X_DELIM] @ ''ACTION waves'' @ [X_DELIM] @ [CR, NL]) \<and>
   ctcp_decode (''PRIVMSG :'' @ [X_DELIM] @ ''ACTION waves'' @ [X_DELIM])
     = Inr \<lparr>prefix = Some ([]), command = ''PRIVMSG'', params = PList ['':''],
       ctcp_params = [(''ACTION'', DStr (''waves''))]\<rparr> \<and>
   ctcp_encode \<lparr>prefix = Some (''srv''), command = ''PRIVMSG'', params = PList [''bob''],
       ctcp_params = [(''ACTION'', DStr (''waves''))]\<rparr>
     = Inr (''srv PRIVMSG bob :'' @ [X_DELIM] @ ''ACTION waves'' @ [X_DELIM] @ [CR, NL]) \<and>
   ctcp_decode (''srv PRIVMSG bob :'' @ [X_DELIM] @ ''ACTION waves'' @ [X_DELIM])
     = Inr \<lparr>prefix = Some ([]), command = ''srv'', params = PList [''PRIVMSG'', ''bob''],
       ctcp_params = [(''ACTION'', DStr (''waves''))]\<rparr> \<and>
   ctcp_encode \<lparr>prefix = None, command = ''PRIVMSG'', params = PList [[], ''bob''],
       ctcp_params = [(''ACTION'', DStr (''waves''))]\<rparr>
     = Inr (''PRIVMSG  bob :'' @ [X_DELIM] @ ''ACTION waves'' @ [X_DELIM] @ [CR, NL]) \<and>
   ctcp_decode (''PRIVMSG  bob :'' @ [X_DELIM] @ ''ACTION waves'' @ [X_DELIM])
     = Inr \<lparr>prefix = Some ([]), command = ''PRIVMSG'', params = PList [''bob''],
       ctcp_params = [(''ACTION'', DStr (''waves''))]\<rparr> \<and>
   ctcp_encode \<lparr>prefix = None, command = ''PRIVMSG'', params = PList [''a b''],
       ctcp_params = [(''ACTION'', DStr (''waves''))]\<rparr>
     = Inr (''PRIVMSG a b :'' @ [X_DELIM] @ ''ACTION waves'' @ [X_DELIM] @ [CR, NL]) \<and>
   ctcp_decode (''PRIVMSG a b :'' @ [X_DELIM] @ ''ACTION waves'' @ [X_DELIM])
     = Inr \<lparr>prefix = Some ([]), command = ''PRIVMSG'', params = PList [''a'', ''b''],
       ctcp_params = [(''ACTION'', DStr (''waves''))]\<rparr> \<and>
   ctcp_encode \<lparr>prefix = None, command = ''PRIVMSG'', params = PList [''a'' @ [M_QUOTE] @ ''n''],
       ctcp_params = [(''ACTION'', DStr (''waves''))]\<rparr>
     = Inr (''PRIVMSG a'' @ [M_QUOTE] @ ''n :'' @ [X_DELIM] @ ''ACTION waves'' @ [X_DELIM] @ [CR, NL]) \<and>
   ctcp_decode (''PRIVMSG a'' @ [M_QUOTE] @ ''n :'' @ [X_DELIM] @ ''ACTION waves'' @ [X_DELIM])
     = Inr \<lparr>prefix = Some ([]), command = ''PRIVMSG'', params = PList [''a'' @ [M_QUOTE, NL]],
       ctcp_params = [(''ACTION'', DStr (''waves''))]\<rparr> \<and>
   ctcp_encode \<lparr>prefix = None, command = ''PRIVMSG'', params = PList [''a'', '':b''],
       ctcp_params = [(''ACTION'', DStr (''waves''))]\<rparr>
     = Inr (''PRIVMSG a :b :'' @ [X_DELIM] @ ''ACTION waves'' @ [X_DELIM] @ [CR, NL]) \<and>
   ctcp_decode (''PRIVMSG a :b :'' @ [X_DELIM] @ ''ACTION waves'' @ [X_DELIM])
     = Inr \<lparr>prefix = Some ([]), command = ''PRIVMSG'', params = PList [''a'', ''b'', '':''],
       ctcp_params = [(''ACTION'', DStr (''waves''))]\<rparr> \<and>
   ctcp_encode \<lparr>prefix = None, command = ''PRIVMSG'', params = PList [''bob''],
       ctcp_params = [([], DNone)]\<rparr>
     = Inr (''PRIVMSG bob :'' @ [X_DELIM, X_DELIM] @ [CR, NL]) \<and>
   ctcp_decode (''PRIVMSG bob :'' @ [X_DELIM, X_DELIM])
     = Inr \<lparr>prefix = Some ([]), command = ''PRIVMSG'', params = PList [''bob''],
       ctcp_params = []\<rparr> \<and>
   ctcp_encode \<lparr>prefix = None, command = ''PRIVMSG'', params = PList [''bob''],
       ctcp_params = [(''A B'', DNone)]\<rparr>
     = Inr (''PRIVMSG bob :'' @ [X_DELIM] @ ''A B'' @ [X_DELIM] @ [CR, NL]) \<and>
   ctcp_decode (''PRIVMSG bob :'' @ [X_DELIM] @ ''A B'' @ [X_DELIM])
     = Inr \<lparr>prefix = Some ([]), command = ''PRIVMSG'', params = PList [''bob''],
       ctcp_params = [(''A'', DStr (''B''))]\<rparr> \<and>
   ctcp_encode \<lparr>prefix = None, command = ''PRIVMSG'', params = PList [''bob''],
       ctcp_params = [(''A'', DStr ([]))]\<rparr>
     = Inr (''PRIVMSG bob :'' @ [X_DELIM] @ ''A'' @ [X_DELIM] @ [CR, NL]) \<and>
   ctcp_decode (''PRIVMSG bob :'' @ [X_DELIM] @ ''A'' @ [X_DELIM])
     = Inr \<lparr>prefix = Some ([]), command = ''PRIVMSG'', params = PList [''bob''],
       ctcp_params = [(''A'', DNone)]\<rparr> \<and>
   ctcp_encode \<lparr>prefix = None, command = ''PRIVMSG'', params = PList [''bob''],
       ctcp_params = [(''A'', DSeq [''x'', ''y''])]\<rparr>
     = Inr (''PRIVMSG bob :'' @ [X_DELIM] @ ''A x y'' @ [X_DELIM] @ [CR, NL]) \<and>
   ctcp_decode (''PRIVMSG bob :'' @ [X_DELIM] @ ''A x y'' @ [X_DELIM])
     = Inr \<lparr>prefix = Some ([]), command = ''PRIVMSG'', params = PList [''bob''],
       ctcp_params = [(''A'', DStr (''x y''))]\<rparr> \<and>
   ctcp_encode \<lparr>prefix = None, command = ''PRIVMSG'', params = PList [''bob''],
       ctcp_params = [(''A'', DStr (''x'' @ [X_DELIM] @ ''y''))]\<rparr>
     = Inr (''PRIVMSG bob :'' @ [X_DELIM] @ ''A x'' @ [X_QUOTE] @ ''ay'' @ [X_DELIM] @ [CR, NL]) \<and>
   ctcp_decode (''PRIVMSG bob :'' @ [X_DELIM] @ ''A x'' @ [X_QUOTE] @ ''ay'' @ [X_DELIM])
     = Inr \<lparr>prefix = Some ([]), command = ''PRIVMSG'', params = PList [''bob''],
       ctcp_params = [(''A'', DStr (''x'' @ [X_QUOTE, X_DELIM] @ ''y''))]\<rparr> \<and>
   ctcp_encode \<lparr>prefix = None, command = ''PRIVMSG'', params = PList [''bob''],
       ctcp_params = [(''A'', DStr (''x'' @ [X_QUOTE] @ ''y''))]\<rparr>
     = Inr (''PRIVMSG bob :'' @ [X_DELIM] @ ''A x'' @ [X_QUOTE, X_QUOTE] @ ''y'' @ [X_DELIM] @ [CR, NL]) \<and>
   ctcp_decode (''PRIVMSG bob :'' @ [X_DELIM] @ ''A x'' @ [X_QUOTE, X_QUOTE] @ ''y'' @ [X_DELIM])
     = Inr \<lparr>prefix = Some ([]), command = ''PRIVMSG'', params = PList [''bob''],
       ctcp_params = [(''A'', DStr (''x'' @ [X_QUOTE, X_QUOTE] @ ''y''))]\<rparr> \<and>
   ctcp_encode \<lparr>prefix = None, command = ''PRIVMSG'', params = PList [''bob''],
       ctcp_params = [(''A'', DStr (''x'' @ [NUL] @ ''y''))]\<rparr>
     = Inr (''PRIVMSG bob :'' @ [X_DELIM] @ ''A x'' @ [M_QUOTE] @ ''0y'' @ [X_DELIM] @ [CR, NL]) \<and>
   ctcp_decode (''PRIVMSG bob :'' @ [X_DELIM] @ ''A x'' @ [M_QUOTE] @ ''0y'' @ [X_DELIM])
     = Inr \<lparr>prefix = Some ([]), command = ''PRIVMSG'', params = PList [''bob''],
       ctcp_params = [(''A'', DStr (''x'' @ [M_QUOTE, NUL] @ ''y''))]\<rparr> \<and>
   ctcp_encode \<lparr>prefix = None, command = ''PRIVMSG'', params = PList [''bob''],
       ctcp_params = [(''A'', DStr (''x'' @ [CR] @ ''y''))]\<rparr>
     = Inr (''PRIVMSG bob :'' @ [X_DELIM] @ ''A x'' @ [M_QUOTE] @ ''ry'' @ [X_DELIM] @ [CR, NL]) \<and>
   ctcp_decode (''PRIVMSG bob :'' @ [X_DELIM] @ ''A x'' @ [M_QUOTE] @ ''ry'' @ [X_DELIM])
     = Inr \<lparr>prefix = Some ([]), command = ''PRIVMSG'', params = PList [''bob''],
       ctcp_params = [(''A'', DStr (''x'' @ [M_QUOTE, CR] @ ''y''))]\<rparr> \<and>
   ctcp_encode \<lparr>prefix = None, command = ''PRIVMSG'', params = PList [''bob''],
       ctcp_params = [(''A'', DStr (''x'' @ [NL] @ ''y''))]\<rparr>
     = Inr (''PRIVMSG bob :'' @ [X_DELIM] @ ''A x'' @ [M_QUOTE] @ ''ny'' @ [X_DELIM] @ [CR, NL]) \<and>
   ctcp_decode (''PRIVMSG bob :'' @ [X_DELIM] @ ''A x'' @ [M_QUOTE] @ ''ny'' @ [X_DELIM])
     = Inr \<lparr>prefix = Some ([]), command = ''PRIVMSG'', params = PList [''bob''],
       ctcp_params = [(''A'', DStr (''x'' @ [M_QUOTE, NL] @ ''y''))]\<rparr> \<and>
   ctcp_encode \<lparr>prefix = None, command = ''PRIVMSG'', params = PList [''bob''],
       ctcp_params = [(''A'', DStr (''x'' @ [M_QUOTE] @ ''y''))]\<rparr>
     = Inr (''PRIVMSG bob :'' @ [X_DELIM] @ ''A x'' @ [M_QUOTE, M_QUOTE] @ ''y'' @ [X_DELIM] @ [CR, NL]) \<and>
   ctcp_decode (''PRIVMSG bob :'' @ [X_DELIM] @ ''A x'' @ [M_QUOTE, M_QUOTE] @ ''y'' @ [X_DELIM])
     = Inr \<lparr>prefix = Some ([]), command = ''PRIVMSG'', params = PList [''bob''],
       ctcp_params = [(''A'', DStr (''x'' @ [M_QUOTE, M_QUOTE] @ ''y''))]\<rparr> \<and>
   ctcp_encode \<lparr>prefix = None, command = ''A B'', params = PList [''bob''],
       ctcp_params = [(''A'', DStr (''x''))]\<rparr>
     = Inr (''A B bob :'' @ [X_DELIM] @ ''A x'' @ [X_DELIM] @ [CR, NL]) \<and>
   ctcp_decode (''A B bob :'' @ [X_DELIM] @ ''A x'' @ [X_DELIM])
     = Inr \<lparr>prefix = Some ([]), command = ''A'', params = PList [''B'', ''bob''],
       ctcp_params = [(''A'', DStr (''x''))]\<rparr> \<and>
   ctcp_encode \<lparr>prefix = None, command = '':A'', params = PList [''bob''],
       ctcp_params = [(''A'', DStr (''x''))]\<rparr>
     = Inr ('':A bob :'' @ [X_DELIM] @ ''A x'' @ [X_DELIM] @ [CR, NL]) \<and>
   ctcp_decode ('':A bob :'' @ [X_DELIM] @ ''A x'' @ [X_DELIM])
     = Inr \<lparr>prefix = Some (''A''), command = ''bob'', params = PList ['':''],
       ctcp_params = [(''A'', DStr (''x''))]\<rparr>"
  by (simp add: ctcp_encode_def ctcp_decode_def ctcp_buf_def irc_unsplit_def irc_split_def
      startswith_def quote_defs char_defs)

text \<open>
  Claim C3 as amended: let \<open>m\<close> be a CTCP message without prefix, whose command has no space
  and does not begin with a colon, with at least one plain token, where every plain token
  is non-empty, contains no space, no delimiter byte \<^verbatim>\<open>\x01\<close> and no byte \<^verbatim>\<open>\x10\<close> and does
  not begin with a colon, and where every pair has a non-empty tag without space and a data
  that is absent or a non-empty string, both free of NUL, CR, LF, \<^verbatim>\<open>\x10\<close>, \<^verbatim>\<open>\x01\<close> and
  \<^verbatim>\<open>\x86\<close>. Then \<^verbatim>\<open>encode\<close> returns a line ending in CR LF, and decoding that line without
  the CR LF returns the command, the plain tokens and the pairs of \<open>m\<close>, with the empty
  string as prefix.
\<close>

theorem ctcp_roundtrip:
  fixes m :: ctcp_message
  assumes "prefix m = None" "params m = PList ps" "ps \<noteq> []"
    and "DELIM \<notin> set (command m)" "\<not> startswith (command m) '':''"
    and "\<forall>p \<in> set ps.
           p \<noteq> [] \<and> DELIM \<notin> set p \<and> X_DELIM \<notin> set p \<and> M_QUOTE \<notin> set p \<and>
           \<not> startswith p '':''"
    and "\<forall>(tag, data) \<in> set (ctcp_params m).
           tag \<noteq> [] \<and> DELIM \<notin> set tag \<and>
           set tag \<inter> {NUL, CR, NL, M_QUOTE, X_DELIM, X_QUOTE} = {} \<and>
           (data = DNone \<or>
            (\<exists>d. data = DStr d \<and> d \<noteq> [] \<and>
                 set d \<inter> {NUL, CR, NL, M_QUOTE, X_DELIM, X_QUOTE} = {}))"
  shows "\<exists>line. ctcp_encode m = Inr (line @ [CR, NL]) \<and>
                ctcp_decode line = Inr (m\<lparr>prefix := Some []\<rparr>)"
proof -
  let ?es = "ctcp_params m"
  let ?seg = "concat (map (\<lambda>b. X_DELIM # b @ [X_DELIM]) (map ctcp_body ?es))"
  let ?line = "command m @ DELIM # join [DELIM] ps @ DELIM #
                 (if ?seg \<noteq> [] then CHR '':'' # ?seg else [])"
  have body: "ch \<notin> set (ctcp_body e)"
    if "e \<in> set ?es" "ch \<in> {NUL, CR, NL, M_QUOTE, X_DELIM, X_QUOTE}" for e ch
  proof -
    obtain tag data where e: "e = (tag, data)" by (cases e)
    from that(1) assms(7) e have
      "set tag \<inter> {NUL, CR, NL, M_QUOTE, X_DELIM, X_QUOTE} = {}"
      "data = DNone \<or> (\<exists>d. data = DStr d \<and> set d \<inter> {NUL, CR, NL, M_QUOTE, X_DELIM, X_QUOTE} = {})"
      by auto
    with that(2) have "ch \<notin> set tag" "data = DNone \<or> (\<exists>d. data = DStr d \<and> ch \<notin> set d)"
      by auto
    moreover have "ch \<noteq> DELIM"
      using that(2) by (auto simp: char_defs)
    ultimately show ?thesis
      unfolding e by (intro set_body)
  qed
  have buf: "ctcp_buf ?es = ?seg"
    using body by (intro ctcp_buf_clean) auto
  have "ch \<notin> set ?seg" if "ch \<in> {NUL, CR, NL, M_QUOTE}" for ch
    using that body set_segments [of X_DELIM "map ctcp_body ?es"] by (auto simp: char_defs)
  then have quote: "low_level_quote ?seg = ?seg"
    by (intro low_level_quote_clean) auto
  have "irc_unsplit None (command m) (PList (ps @ [?seg])) = Inr ?line"
    using assms(3) by (rule irc_unsplit_list)
  then have enc: "ctcp_encode m = Inr (?line @ [CR, NL])"
    using assms(1,2) by (simp add: ctcp_encode_def buf quote del: map_map)
  have tokens: "\<forall>p \<in> set ps. p \<noteq> [] \<and> DELIM \<notin> set p \<and> X_DELIM \<notin> set p \<and> M_QUOTE \<notin> set p"
    using assms(6) by auto
  have later: "\<forall>p \<in> set (tl ps). \<not> startswith p '':''"
    using assms(3,6) by (cases ps) auto
  have split: "irc_split ?line = Inr ([], command m, ps @ [?seg])"
    using assms(3) _ later assms(4,5) by (rule irc_split_line) (use tokens in auto)
  have es: "\<forall>(tag, data) \<in> set ?es.
             tag \<noteq> [] \<and> DELIM \<notin> set tag \<and> X_QUOTE \<notin> set tag \<and>
             (data = DNone \<or> (\<exists>d. data = DStr d \<and> d \<noteq> [] \<and> X_QUOTE \<notin> set d))"
    using assms(7) by fastforce
  have "ctcp_decode ?line
      = Inr \<lparr>prefix = Some [], command = command m, params = PList ps, ctcp_params = ?es\<rparr>"
    using assms(3) tokens es _ split by (rule ctcp_decode_line) (use body in auto)
  also have "\<dots> = Inr (m\<lparr>prefix := Some []\<rparr>)"
    using assms(1,2) by simp
  finally show ?thesis
    using enc by blast
qed


theorem ctcp_roundtrip_witness:
  "\<exists>line.
     ctcp_encode \<lparr>prefix = None, command = ''PRIVMSG'', params = PList [''bob''],
                  ctcp_params = [(''ACTION'', DStr ''waves''), (''VERSION'', DNone)]\<rparr>
       = Inr (line @ [CR, NL]) \<and>
     ctcp_decode line
       = Inr \<lparr>prefix = Some [], command = ''PRIVMSG'', params = PList [''bob''],
               ctcp_params = [(''ACTION'', DStr ''waves''), (''VERSION'', DNone)]\<rparr>"
  using ctcp_roundtrip
    [of "\<lparr>prefix = None, command = ''PRIVMSG'', params = PList [''bob''],
          ctcp_params = [(''ACTION'', DStr ''waves''), (''VERSION'', DNone)]\<rparr>" "[''bob'']"]
  by (simp add: startswith_def char_defs)

section \<open>Properties of the identity state\<close>

lemma send_and_wait_None:
  "send_and_wait E m c = (None, c2) \<longleftrightarrow>
     (\<exists>c1. send E m c = (None, c1) \<and> wait_for_messages E c1 = (None, c2))"
  unfolding send_and_wait_def
  by (cases "send E m c"; cases "fst (send E m c)"; cases "wait_for_messages E (snd (send E m c))";
      cases "fst (wait_for_messages E (snd (send E m c)))")
     (auto split: prod.splits option.splits)

lemma nick_setter_new_nick: "new_nick (snd (nick_setter E held new c)) = None"
  unfolding nick_setter_def Let_def
  by (simp split: sum.split prod.split option.split)


text \<open>
  Claim C7: every nick change through the setter leaves no pending nick, whether the setter
  returns or raises; and when it returns, the confirmed nick is the pending nick as it was
  when \<^verbatim>\<open>wait_for_messages\<close> returned, which need not be the requested one.
\<close>

theorem nick_setter_clears_pending:
  "new_nick (snd (nick_setter E held new c)) = None \<and>
   (fst (nick_setter E held new c) = None \<longrightarrow>
      (\<exists>nick_msg c1 c2.
         message_Nick E ((if held then c else lock_wait E c)\<lparr>new_nick := Some new\<rparr>) new
           = Inr nick_msg \<and>
         send E nick_msg ((if held then c else lock_wait E c)\<lparr>new_nick := Some new\<rparr>)
           = (None, c1) \<and>
         wait_for_messages E c1 = (None, c2) \<and>
         snd (nick_setter E held new c) = c2\<lparr>nick := new_nick c2, new_nick := None\<rparr>))"
proof (intro conjI impI)
  show "new_nick (snd (nick_setter E held new c)) = None"
    by (rule nick_setter_new_nick)
next
  let ?c0 = "(if held then c else lock_wait E c)\<lparr>new_nick := Some new\<rparr>"
  assume ok: "fst (nick_setter E held new c) = None"
  obtain nick_msg where m: "message_Nick E ?c0 new = Inr nick_msg"
    using ok by (cases "message_Nick E ?c0 new") (simp_all add: nick_setter_def Let_def)
  obtain r c2 where sw: "send_and_wait E nick_msg ?c0 = (r, c2)"
    by (cases "send_and_wait E nick_msg ?c0") blast
  have r: "r = None"
    using ok m sw by (cases r) (simp_all add: nick_setter_def Let_def)
  then obtain c1 where c1: "send E nick_msg ?c0 = (None, c1)" "wait_for_messages E c1 = (None, c2)"
    using sw send_and_wait_None [of E nick_msg ?c0 c2] by auto
  have "snd (nick_setter E held new c) = c2\<lparr>nick := new_nick c2, new_nick := None\<rparr>"
    using m sw r by (simp add: nick_setter_def Let_def)
  with m c1 show "\<exists>nick_msg c1 c2.
         message_Nick E ?c0 new = Inr nick_msg \<and>
         send E nick_msg ?c0 = (None, c1) \<and>
         wait_for_messages E c1 = (None, c2) \<and>
         snd (nick_setter E held new c) = c2\<lparr>nick := new_nick c2, new_nick := None\<rparr>"
    by blast
qed


theorem nick_setter_clears_pending_witness:
  "fst (nick_setter (server\<lparr>wait_for_messages := (\<lambda>c. (None, c\<lparr>new_nick := Some ''bob_''\<rparr>))\<rparr>)
          False ''bob'' alice) = None \<and>
   snd (nick_setter (server\<lparr>wait_for_messages := (\<lambda>c. (None, c\<lparr>new_nick := Some ''bob_''\<rparr>))\<rparr>)
          False ''bob'' alice)
     = alice\<lparr>nick := Some ''bob_'', send_queue := Some [''NICK bob'']\<rparr>"
proof -
  let ?E = "server\<lparr>wait_for_messages := (\<lambda>c. (None, c\<lparr>new_nick := Some ''bob_''\<rparr>))\<rparr>"
  have ok: "fst (nick_setter ?E False ''bob'' alice) = None"
    by (simp add: nick_setter_def send_and_wait_def server_def alice_def)
  have q: "send_queue alice = Some []" "new_nick alice = None"
    by (simp_all add: alice_def)
  from nick_setter_clears_pending [of ?E False "''bob''" alice] ok
  obtain nick_msg c1 c2 where
    "message_Nick ?E ((if False then alice else lock_wait ?E alice)\<lparr>new_nick := Some ''bob''\<rparr>) ''bob''
       = Inr nick_msg"
    "send ?E nick_msg ((if False then alice else lock_wait ?E alice)\<lparr>new_nick := Some ''bob''\<rparr>)
       = (None, c1)"
    "wait_for_messages ?E c1 = (None, c2)"
    "snd (nick_setter ?E False ''bob'' alice) = c2\<lparr>nick := new_nick c2, new_nick := None\<rparr>"
    by blast
  then have "snd (nick_setter ?E False ''bob'' alice)
      = alice\<lparr>nick := Some ''bob_'', send_queue := Some [''NICK bob'']\<rparr>"
    using q by (auto simp: server_def)
  with ok show ?thesis by simp
qed


text \<open>
  Claim C8 says that a rejection naming the pending nick (when a change is in flight) or
  the confirmed nick (when none is) leads, under the lock, to a rename to the next
  candidate. The code starts no rename in either case. With \<^verbatim>\<open>alice\<close> confirmed and the
  change to \<^verbatim>\<open>bob\<close> in flight, the handler of the rejection of \<^verbatim>\<open>bob\<close> resets the pending
  nick to \<^verbatim>\<open>alice\<close>, waits for the lock until the change in flight has completed, finds that
  \<^verbatim>\<open>bob\<close> is not the confirmed nick, and returns: no second \<^verbatim>\<open>NICK\<close> is sent. With
  \<^verbatim>\<open>alice\<close> confirmed and no change in flight, the handler of the rejection of \<^verbatim>\<open>alice\<close>
  reaches \<^verbatim>\<open>self.increment_nick\<close>, which raises \<^verbatim>\<open>AttributeError\<close>: the nick stays
  \<^verbatim>\<open>alice\<close> and nothing is sent.
\<close>

theorem nick_in_use_failing:
  "nick_in_use server [''bob''] (alice\<lparr>new_nick := Some ''bob'', send_queue := Some [''NICK bob'']\<rparr>)
     = (None, alice\<lparr>send_queue := Some [''NICK bob'']\<rparr>) \<and>
   nick_in_use server [''alice''] alice = (Some (Exception ''AttributeError''), alice)"
  by (simp add: nick_in_use_def nick_in_use_check_def server_def alice_def)

text \<open>
  Claim C10: when no change is in flight (\<^verbatim>\<open>_new_nick\<close> is \<^verbatim>\<open>None\<close>),
  \<^verbatim>\<open>matches_nick(None)\<close> is true.
\<close>

theorem matches_nick_None: "new_nick c = None \<Longrightarrow> matches_nick c None"
  by (simp add: matches_nick_def)


theorem matches_nick_None_witness: "new_nick alice = None \<and> matches_nick alice None"
  using matches_nick_None [of alice] by (simp add: alice_def)


section \<open>Properties of the shutdown\<close>









end
